theory Spec2Isabelle
  imports Complex_Main "HOL-Library.Sublist" "HOL-Library.Char_ord" "HOL-Library.List_Lexorder"
    "HOL-Library.Product_Lexorder" "HOL-Library.Option_ord"
begin

section \<open>Text, character classes and the regular expressions of \<open>parse_logs\<close>\<close>

text \<open>
  The program (\<open>main.py\<close>) reads gzip-compressed log files line by line, cuts them into
  blocks between \<open>START RequestId\<close> and \<open>END RequestId\<close> lines, extracts named fields
  from each block with regular expressions, and analyses the resulting table with pandas.

  Python text is modelled as \<open>string\<close>: the characters are the code points below 256.
  On those, \<open>\d\<close> is the ten ASCII digits and \<open>\s\<close> (as \<open>str.strip\<close>) is the set
  \<open>py_whitespace\<close> below.
\<close>

definition py_whitespace :: "char list" where
  "py_whitespace = [CHR 0x09, CHR 0x0A, CHR 0x0B, CHR 0x0C, CHR 0x0D, CHR 0x1C, CHR 0x1D,
     CHR 0x1E, CHR 0x1F, CHR 0x20, CHR 0x85, CHR 0xA0]"

definition is_space :: "char \<Rightarrow> bool" where
  "is_space c = (c \<in> set py_whitespace)"

definition is_digit :: "char \<Rightarrow> bool" where
  "is_digit c = (c \<in> set ''0123456789'')"

text \<open>The class \<open>[0-9a-f\-]\<close> of the request identifier.\<close>

definition is_idchar :: "char \<Rightarrow> bool" where
  "is_idchar c = (c \<in> set ''0123456789abcdef-'')"

text \<open>The class \<open>[0-9\.\-]\<close> of the numeric fields.\<close>

definition is_numchar :: "char \<Rightarrow> bool" where
  "is_numchar c = (c \<in> set ''0123456789.-'')"

definition dquote :: char where
  "dquote = CHR 0x22"

definition squote :: char where
  "squote = CHR 0x27"

definition newline :: char where
  "newline = CHR 0x0A"

text \<open>The class \<open>[^",\'}]\<close> of the JSON-like fields.\<close>

definition is_jsonchar :: "char \<Rightarrow> bool" where
  "is_jsonchar c = (c \<notin> set [dquote, CHR '','', squote, CHR ''}''])"

text \<open>\<open>str.strip()\<close>: whitespace removed at both ends.\<close>

definition strip :: "string \<Rightarrow> string" where
  "strip s = rev (dropWhile is_space (rev (dropWhile is_space s)))"

text \<open>\<open>"\n".join(lines)\<close>.\<close>

fun join_lines :: "string list \<Rightarrow> string" where
  "join_lines [] = []"
| "join_lines [l] = l"
| "join_lines (l # m # ls) = l @ newline # join_lines (m # ls)"

subsection \<open>The marker patterns\<close>

text \<open>
  \<^verbatim>\<open>start_re = ^\d{4}-\d{2}-\d{2}T.*START RequestId:\s+(?P<rid>[0-9a-f\-]{36})\<close> and
  \<^verbatim>\<open>end_re   = ^\d{4}-\d{2}-\d{2}T.*END RequestId:\s+(?P<rid>[0-9a-f\-]{36})\<close>,
  both used with \<open>match\<close> (anchored at the start of the line, anything may follow the
  match). A matcher returns the text left after what it consumed, or the captured group.
\<close>

datatype item = Digit | Lit char

fun match_items :: "item list \<Rightarrow> string \<Rightarrow> string option" where
  "match_items [] s = Some s"
| "match_items (i # is) [] = None"
| "match_items (Digit # is) (c # cs) = (if is_digit c then match_items is cs else None)"
| "match_items (Lit a # is) (c # cs) = (if c = a then match_items is cs else None)"

text \<open>\<open>\d{4}-\d{2}-\d{2}T\<close>\<close>

definition date_items :: "item list" where
  "date_items = [Digit, Digit, Digit, Digit, Lit CHR ''-'', Digit, Digit, Lit CHR ''-'',
     Digit, Digit, Lit CHR ''T'']"

text \<open>
  The greedy \<open>.*\<close> followed by the rest of the pattern \<open>k\<close>: the dot takes every
  character but a newline, the longest run is tried first and the matcher backtracks
  one character at a time.
\<close>

fun dot_star :: "(string \<Rightarrow> 'a option) \<Rightarrow> string \<Rightarrow> 'a option" where
  "dot_star k [] = k []"
| "dot_star k (c # cs) =
     (if c = newline then k (c # cs)
      else (case dot_star k cs of Some r \<Rightarrow> Some r | None \<Rightarrow> k (c # cs)))"

text \<open>
  \<open>lit\s+(?P<rid>[0-9a-f\-]{36})\<close> at the start of \<open>t\<close>. Whitespace and identifier
  characters are disjoint, so the greedy \<open>\s+\<close> never has to give a character back.
\<close>

definition rid_after :: "string \<Rightarrow> string \<Rightarrow> string option" where
  "rid_after lit t =
     (if prefix lit t then
        (let u = drop (length lit) t;
             v = dropWhile is_space u;
             rid = take 36 v
         in if takeWhile is_space u \<noteq> [] \<and> length rid = 36 \<and> list_all is_idchar rid
            then Some rid else None)
      else None)"

definition marker_match :: "string \<Rightarrow> string \<Rightarrow> string option" where
  "marker_match lit s =
     (case match_items date_items s of
        None \<Rightarrow> None
      | Some rest \<Rightarrow> dot_star (rid_after lit) rest)"

definition start_re_match :: "string \<Rightarrow> string option" where
  "start_re_match s = marker_match ''START RequestId:'' s"

definition end_re_match :: "string \<Rightarrow> string option" where
  "end_re_match s = marker_match ''END RequestId:'' s"

subsection \<open>The field patterns and \<open>_extract_record\<close>\<close>

text \<open>\<open>pat.search(text)\<close>: the leftmost position where the pattern matches.\<close>

fun search :: "(string \<Rightarrow> 'a option) \<Rightarrow> string \<Rightarrow> 'a option" where
  "search m [] = m []"
| "search m (c # cs) = (case m (c # cs) of Some r \<Rightarrow> Some r | None \<Rightarrow> search m cs)"

text \<open>\<open>name:\s*([0-9\.\-]+)\<close>\<close>

definition num_pat :: "string \<Rightarrow> string \<Rightarrow> string option" where
  "num_pat lit t =
     (if prefix lit t then
        (let g = takeWhile is_numchar (dropWhile is_space (drop (length lit) t))
         in if g \<noteq> [] then Some g else None)
      else None)"

text \<open>\<open>name:\s*'([^']+)'\<close>\<close>

definition quoted_pat :: "string \<Rightarrow> string \<Rightarrow> string option" where
  "quoted_pat lit t =
     (if prefix lit t then
        (case dropWhile is_space (drop (length lit) t) of
           [] \<Rightarrow> None
         | q # u \<Rightarrow>
             (let g = takeWhile (\<lambda>c. c \<noteq> squote) u
              in if q = squote \<and> g \<noteq> [] \<and> dropWhile (\<lambda>c. c \<noteq> squote) u \<noteq> []
                 then Some g else None))
      else None)"

text \<open>\<open>"name":"?([^",\'}]+)\<close>, \<open>lit\<close> being the quoted name and the colon.\<close>

definition json_pat :: "string \<Rightarrow> string \<Rightarrow> string option" where
  "json_pat lit t =
     (if prefix lit t then
        (let u = drop (length lit) t;
             v = (case u of [] \<Rightarrow> [] | q # w \<Rightarrow> if q = dquote then w else u);
             g = takeWhile is_jsonchar v
         in if g \<noteq> [] then Some g else None)
      else None)"

definition json_key :: "string \<Rightarrow> string" where
  "json_key name = dquote # name @ [dquote, CHR '':'']"

text \<open>
  \<open>updatePaymentBalance:\s*(true|false)\<close> with \<open>re.I\<close>: letters are compared without
  case, the group keeps the text as it stands in the block.
\<close>

definition lower_char :: "char \<Rightarrow> char" where
  "lower_char c =
     (if c \<in> set ''ABCDEFGHIJKLMNOPQRSTUVWXYZ'' then char_of (of_char c + (32 :: nat)) else c)"

definition iprefix :: "string \<Rightarrow> string \<Rightarrow> bool" where
  "iprefix lit t = (map lower_char (take (length lit) t) = map lower_char lit)"

definition bool_pat :: "string \<Rightarrow> string \<Rightarrow> string option" where
  "bool_pat lit t =
     (if iprefix lit t then
        (let v = dropWhile is_space (drop (length lit) t)
         in if iprefix ''true'' v then Some (take 4 v)
            else if iprefix ''false'' v then Some (take 5 v)
            else None)
      else None)"

text \<open>
  A Record: the dictionary \<open>_extract_record\<close> builds. The three tags are always set;
  each of the eleven pattern fields is present only when its pattern matched.
\<close>

record Record =
  requestId :: string
  gz_file :: string
  start_ts :: "string option"
  paymentBalance :: "string option"
  updatePaymentBalance :: "string option"
  oldBalance :: "string option"
  newBalance :: "string option"
  amount :: "string option"
  action :: "string option"
  transactionAction :: "string option"
  walletId :: "string option"
  userId :: "string option"
  email :: "string option"
  business_id :: "string option"

definition extract_record :: "string \<Rightarrow> string \<Rightarrow> string \<Rightarrow> string option \<Rightarrow> Record" where
  "extract_record text rid gz_path ts =
     \<lparr> requestId = rid, gz_file = gz_path, start_ts = ts,
       paymentBalance = search (num_pat ''paymentBalance:'') text,
       updatePaymentBalance = search (bool_pat ''updatePaymentBalance:'') text,
       oldBalance = search (num_pat ''oldBalance:'') text,
       newBalance = search (num_pat ''newBalance:'') text,
       amount = search (num_pat ''amount:'') text,
       action = search (quoted_pat ''action:'') text,
       transactionAction = search (quoted_pat ''transactionAction:'') text,
       walletId = search (json_pat (json_key ''walletId'')) text,
       userId = search (quoted_pat ''userId:'') text,
       email = search (json_pat (json_key ''email'')) text,
       business_id = search (json_pat (json_key ''id'')) text \<rparr>"

section \<open>Block reconstruction: \<open>parse_logs\<close>\<close>

text \<open>
  \<open>s.split('Z')\<close> for a one-character separator, and the start timestamp
  \<^verbatim>\<open>s.split('Z')[0] + 'Z' if 'Z' in s else s[:25]\<close>.
\<close>

fun split_on :: "char \<Rightarrow> string \<Rightarrow> string list" where
  "split_on c [] = [[]]"
| "split_on c (x # xs) =
     (if x = c then [] # split_on c xs
      else (let ps = split_on c xs in (x # hd ps) # tl ps))"

definition capture_start_ts :: "string \<Rightarrow> string" where
  "capture_start_ts s =
     (if CHR ''Z'' \<in> set s then hd (split_on CHR ''Z'' s) @ ''Z'' else take 25 s)"

text \<open>The three loop variables of one file, and Python's truth value of \<open>current_id\<close>.\<close>

record pstate =
  current_id :: "string option"
  buffer_lines :: "string list"
  cur_start_ts :: "string option"

definition init_state :: pstate where
  "init_state = \<lparr> current_id = None, buffer_lines = [], cur_start_ts = None \<rparr>"

definition truthy :: "string option \<Rightarrow> bool" where
  "truthy x = (case x of None \<Rightarrow> False | Some s \<Rightarrow> s \<noteq> [])"

definition flush :: "string \<Rightarrow> pstate \<Rightarrow> Record" where
  "flush gz st =
     extract_record (join_lines (buffer_lines st)) (the (current_id st)) gz (cur_start_ts st)"

text \<open>One iteration of \<open>for raw in f\<close>; \<open>records\<close> is the list the function appends to.\<close>

definition step :: "string \<Rightarrow> pstate \<times> Record list \<Rightarrow> string \<Rightarrow> pstate \<times> Record list" where
  "step gz sr raw =
     (let st = fst sr; records = snd sr; s = strip raw in
      case start_re_match s of
        Some rid \<Rightarrow>
          (\<lparr> current_id = Some rid, buffer_lines = [s], cur_start_ts = Some (capture_start_ts s) \<rparr>,
           if truthy (current_id st) \<and> buffer_lines st \<noteq> [] then records @ [flush gz st]
           else records)
      | None \<Rightarrow>
          if end_re_match s \<noteq> None \<and> truthy (current_id st) \<and> end_re_match s = current_id st
          then (init_state, records @ [flush gz (st\<lparr> buffer_lines := buffer_lines st @ [s] \<rparr>)])
          else if truthy (current_id st)
          then (st\<lparr> buffer_lines := buffer_lines st @ [s] \<rparr>, records)
          else (st, records))"

text \<open>
  A source is its path, the lines read from it, and how the reading ended: at the end
  of the file, or with an exception (\<open>except Exception: continue\<close> then leaves the
  function's list as it is, without the final flush).
\<close>

datatype source_end = Exhausted | Failed

definition parse_file :: "Record list \<Rightarrow> string \<times> string list \<times> source_end \<Rightarrow> Record list" where
  "parse_file records src =
     (case src of (gz, raws, e) \<Rightarrow>
        (let sr = foldl (step gz) (init_state, records) raws; st = fst sr
         in if e = Exhausted \<and> truthy (current_id st) \<and> buffer_lines st \<noteq> []
            then snd sr @ [flush gz st] else snd sr))"

definition parse_logs :: "(string \<times> string list \<times> source_end) list \<Rightarrow> Record list" where
  "parse_logs gz_files = foldl parse_file [] gz_files"

section \<open>The analysis: \<open>analyze\<close>\<close>

subsection \<open>Numbers, unknown values and errors\<close>

text \<open>
  A pandas float cell is a \<open>real option\<close>: \<open>None\<close> is NaN, the "unknown" of the
  specification. The arithmetic of the doubles is idealised to exact real arithmetic
  (no rounding, no overflow to infinity); NaN propagates through \<open>-\<close>, \<open>*\<close> and
  \<open>abs\<close>, and every comparison with NaN is false. A timestamp cell is an
  \<open>int option\<close> (nanoseconds), \<open>None\<close> being NaT.
\<close>

type_synonym pyfloat = "real option"

definition fsub :: "pyfloat \<Rightarrow> pyfloat \<Rightarrow> pyfloat" where
  "fsub a b = (case a of None \<Rightarrow> None | Some x \<Rightarrow> (case b of None \<Rightarrow> None | Some y \<Rightarrow> Some (x - y)))"

definition fmul :: "pyfloat \<Rightarrow> pyfloat \<Rightarrow> pyfloat" where
  "fmul a b = (case a of None \<Rightarrow> None | Some x \<Rightarrow> (case b of None \<Rightarrow> None | Some y \<Rightarrow> Some (x * y)))"

definition fabs :: "pyfloat \<Rightarrow> pyfloat" where
  "fabs a = (case a of None \<Rightarrow> None | Some x \<Rightarrow> Some \<bar>x\<bar>)"

definition fgt :: "pyfloat \<Rightarrow> real \<Rightarrow> bool" where
  "fgt a c = (case a of None \<Rightarrow> False | Some x \<Rightarrow> x > c)"

definition flt :: "pyfloat \<Rightarrow> real \<Rightarrow> bool" where
  "flt a c = (case a of None \<Rightarrow> False | Some x \<Rightarrow> x < c)"

text \<open>The literal \<open>1e-6\<close>.\<close>

definition tol :: real where
  "tol = 1 / 1000000"

text \<open>The only exception \<open>analyze\<close> can raise on a table built from Records.\<close>

datatype py_error = KeyError string

text \<open>
  \<open>float(x)\<close> on the text of a numeric field. The field patterns capture only digits,
  dots and hyphens; on such text \<open>float\<close> accepts an optional leading \<open>-\<close>, then digits
  with at most one dot and at least one digit, and raises on everything else.
  \<open>to_float\<close> turns the exception, and a missing cell, into NaN.
\<close>

definition digits_value :: "string \<Rightarrow> int" where
  "digits_value s = foldl (\<lambda>a c. 10 * a + (of_char c - 48)) 0 s"

definition parse_decimal :: "string \<Rightarrow> real option" where
  "parse_decimal s =
     (let ip = takeWhile is_digit s; r = dropWhile is_digit s in
      case r of
        [] \<Rightarrow> if ip = [] then None else Some (real_of_int (digits_value ip))
      | c # fp \<Rightarrow>
          if c = CHR ''.'' \<and> list_all is_digit fp \<and> (ip \<noteq> [] \<or> fp \<noteq> [])
          then Some (real_of_int (digits_value ip) + real_of_int (digits_value fp) / 10 ^ length fp)
          else None)"

definition py_float :: "string \<Rightarrow> real option" where
  "py_float s =
     (case s of
        [] \<Rightarrow> None
      | c # cs \<Rightarrow> if c = CHR ''-'' then map_option uminus (parse_decimal cs) else parse_decimal s)"

definition to_float :: "string option \<Rightarrow> pyfloat" where
  "to_float x = (case x of None \<Rightarrow> None | Some s \<Rightarrow> py_float s)"

subsection \<open>The table\<close>

text \<open>
  A row of the DataFrame: the Record it was built from, its index label \<open>idx\<close> (the
  position in the Record list), and the columns \<open>analyze\<close> assigns. The four numeric
  columns are overwritten by their float values in the source; here the float values
  stand beside the text, under the names with \<open>_f\<close>.

  \<open>pd.DataFrame(records)\<close> has a column for every key that occurs in some Record:
  the three tags in every non-empty table, a pattern field only when some Record has it.
\<close>

record Row = Record +
  idx :: nat
  ts :: "int option"
  paymentBalance_f :: pyfloat
  oldBalance_f :: pyfloat
  newBalance_f :: pyfloat
  amount_f :: pyfloat
  delta :: pyfloat
  amount_sign :: pyfloat
  expected_delta :: pyfloat
  mismatch :: bool
  overdraft_before :: bool
  overdraft_after :: bool
  overdraft_cross :: bool
  next_old :: pyfloat
  flow_break :: bool
  delta_anomaly :: bool

definition has_col :: "(Record \<Rightarrow> 'a option) \<Rightarrow> Record list \<Rightarrow> bool" where
  "has_col f recs = list_ex (\<lambda>r. f r \<noteq> None) recs"

text \<open>A row with none of the computed columns assigned yet.\<close>

definition row0 :: "nat \<Rightarrow> Record \<Rightarrow> Row" where
  "row0 i r =
     Record.extend r
       (Row.fields i None None None None None None None None False False False False None
          False False)"

text \<open>
  \<^verbatim>\<open>def best_sign(row):
      amt, dlt = row.get('amount'), row.get('delta')
      if pd.isna(amt) or pd.isna(dlt): return np.nan
      return 1.0 if abs(dlt - amt) <= abs(dlt + amt) else -1.0\<close>
\<close>

definition best_sign :: "Row \<Rightarrow> pyfloat" where
  "best_sign row =
     (let amt = amount_f row; dlt = delta row in
      if amt = None \<or> dlt = None then None
      else if \<bar>the dlt - the amt\<bar> \<le> \<bar>the dlt + the amt\<bar> then Some 1 else Some (- 1))"

text \<open>
  The columns of lines 97 to 120, each a function of the row alone: \<open>ts\<close>, the float
  columns, \<open>delta\<close>, \<open>amount_sign\<close>, \<open>expected_delta\<close>, \<open>mismatch\<close> and the three
  overdraft flags, assigned in the order of the source.
\<close>

definition base_row :: "nat \<Rightarrow> int option \<Rightarrow> Record \<Rightarrow> Row" where
  "base_row i t r =
     (let r1 = (row0 i r)\<lparr> ts := t \<rparr>;
          r2 = r1\<lparr> paymentBalance_f := to_float (paymentBalance r),
                  oldBalance_f := to_float (oldBalance r),
                  newBalance_f := to_float (newBalance r),
                  amount_f := to_float (amount r) \<rparr>;
          r3 = r2\<lparr> delta := fsub (newBalance_f r2) (oldBalance_f r2) \<rparr>;
          r4 = r3\<lparr> amount_sign := best_sign r3 \<rparr>;
          r5 = r4\<lparr> expected_delta := fmul (amount_f r4) (amount_sign r4) \<rparr>;
          r6 = r5\<lparr> mismatch := fgt (fabs (fsub (delta r5) (expected_delta r5))) tol \<rparr>;
          r7 = r6\<lparr> overdraft_before := flt (oldBalance_f r6) 0 \<rparr>;
          r8 = r7\<lparr> overdraft_after := flt (newBalance_f r7) 0 \<rparr>
      in r8\<lparr> overdraft_cross := (\<not> overdraft_before r8 \<and> overdraft_after r8) \<rparr>)"

text \<open>
  \<open>pd.to_datetime(column, errors='coerce')\<close> is a parameter \<open>to_datetime\<close>: given the
  \<open>start_ts\<close> column it returns the parsed cell at each position, NaT where the text
  does not parse.
\<close>

definition base_rows :: "(string option list \<Rightarrow> nat \<Rightarrow> int option) \<Rightarrow> Record list \<Rightarrow> Row list" where
  "base_rows to_datetime recs =
     map (\<lambda>(i, r). base_row i (to_datetime (map start_ts recs) i) r) (enumerate 0 recs)"

text \<open>
  \<open>df.sort_values(['userId', 'walletId', 'ts', 'requestId'], na_position='last')\<close>:
  a stable lexicographic sort, a missing value after every present one in each column.
\<close>

definition na_last :: "'a option \<Rightarrow> bool \<times> 'a option" where
  "na_last x = (x = None, x)"

definition sort_cols ::
  "Row \<Rightarrow> (bool \<times> string option) \<times> (bool \<times> string option) \<times> (bool \<times> int option) \<times> string" where
  "sort_cols r = (na_last (userId r), na_last (walletId r), na_last (ts r), requestId r)"

definition sort_values :: "Row list \<Rightarrow> Row list" where
  "sort_values rows = sort_key sort_cols rows"

text \<open>
  \<open>df.groupby(['userId', 'walletId'])['oldBalance'].shift(-1)\<close>: each row gets the
  \<open>oldBalance\<close> of the next row of the table with the same two keys; rows with a
  missing key belong to no group and get NaN, as does the last row of a group.
\<close>

definition same_group :: "Row \<Rightarrow> Row \<Rightarrow> bool" where
  "same_group a b =
     (userId a \<noteq> None \<and> walletId a \<noteq> None \<and> userId b = userId a \<and> walletId b = walletId a)"

fun shift_old :: "Row list \<Rightarrow> Row list" where
  "shift_old [] = []"
| "shift_old (r # rs) =
     r\<lparr> next_old := (case find (same_group r) rs of None \<Rightarrow> None | Some n \<Rightarrow> oldBalance_f n) \<rparr>
       # shift_old rs"

definition set_flow_break :: "Row \<Rightarrow> Row" where
  "set_flow_break r =
     r\<lparr> flow_break :=
          (newBalance_f r \<noteq> None \<and> next_old r \<noteq> None \<and>
           fgt (fabs (fsub (newBalance_f r) (next_old r))) tol) \<rparr>"

text \<open>
  \<^verbatim>\<open>def z_anomalies(sub):
      vals = sub['delta'].dropna()
      if len(vals) < 5: return pd.Series([False] * len(sub), index=sub.index)
      mu, sd = vals.mean(), vals.std(ddof=1)
      if sd == 0: return pd.Series([False] * len(sub), index=sub.index)
      return (abs(sub['delta'] - mu) > 3 * sd)\<close>
  The result is keyed by the index labels of the group.
\<close>

definition mean :: "real list \<Rightarrow> real" where
  "mean xs = sum_list xs / real (length xs)"

definition std_ddof1 :: "real list \<Rightarrow> real" where
  "std_ddof1 xs = sqrt (sum_list (map (\<lambda>x. (x - mean xs)\<^sup>2) xs) / real (length xs - 1))"

text \<open>The square root has no code equations; \<open>std_ddof1\<close> is left as it is by evaluation.\<close>

declare std_ddof1_def [code del]

definition z_anomalies :: "Row list \<Rightarrow> (nat \<times> bool) list" where
  "z_anomalies sub =
     (let vals = List.map_filter delta sub in
      if length vals < 5 then map (\<lambda>r. (idx r, False)) sub
      else
        (let mu = mean vals; sd = std_ddof1 vals in
         if sd = 0 then map (\<lambda>r. (idx r, False)) sub
         else map (\<lambda>r. (idx r, fgt (fabs (fsub (delta r) (Some mu))) (3 * sd))) sub))"

text \<open>
  \<open>df.groupby('userId', group_keys=False).apply(z_anomalies)\<close>, assigned to the column
  by index label and followed by \<open>fillna(False)\<close>: the rows with a missing \<open>userId\<close>
  are in no group and end as \<open>False\<close>. The combination of the groups' results is
  modelled as pandas documents it, one value per row of each group.
\<close>

definition anomaly_cell :: "Row list \<Rightarrow> Row \<Rightarrow> bool option" where
  "anomaly_cell rows r =
     (case userId r of
        None \<Rightarrow> None
      | Some u \<Rightarrow> map_of (z_anomalies (filter (\<lambda>x. userId x = Some u) rows)) (idx r))"

definition fillna_False :: "bool option \<Rightarrow> bool" where
  "fillna_False x = (case x of None \<Rightarrow> False | Some b \<Rightarrow> b)"

subsection \<open>The per-user summary\<close>

record UserRow =
  user_key :: string
  first_ts :: "int option"
  last_ts :: "int option"
  events :: nat
  overdraft_events :: nat
  overdraft_crossings :: nat
  mismatches :: nat
  flow_breaks :: nat
  last_balance :: pyfloat
  min_balance :: pyfloat
  max_balance :: pyfloat
  final_overdraft :: bool

definition list_min :: "'a::linorder list \<Rightarrow> 'a option" where
  "list_min xs = (case xs of [] \<Rightarrow> None | x # ys \<Rightarrow> Some (fold min ys x))"

definition list_max :: "'a::linorder list \<Rightarrow> 'a option" where
  "list_max xs = (case xs of [] \<Rightarrow> None | x # ys \<Rightarrow> Some (fold max ys x))"

text \<open>
  The aggregation of one group \<open>g\<close> (the rows of one \<open>userId\<close>, in the order of the
  sorted table). \<open>min\<close>, \<open>max\<close> and \<open>sum\<close> skip missing values;
  \<^verbatim>\<open>last_balance = lambda x: x.dropna().iloc[-1] if len(x.dropna()) else np.nan\<close>.
\<close>

definition agg_user :: "string \<Rightarrow> Row list \<Rightarrow> UserRow" where
  "agg_user u g =
     (let known = List.map_filter newBalance_f g;
          lb = (if length known \<noteq> 0 then Some (last known) else None)
      in \<lparr> user_key = u,
           first_ts = list_min (List.map_filter ts g),
           last_ts = list_max (List.map_filter ts g),
           events = length g,
           overdraft_events = length (filter overdraft_after g),
           overdraft_crossings = length (filter overdraft_cross g),
           mismatches = length (filter mismatch g),
           flow_breaks = length (filter flow_break g),
           last_balance = lb,
           min_balance = list_min known,
           max_balance = list_max known,
           final_overdraft = flt lb 0 \<rparr>)"

text \<open>
  \<open>df.dropna(subset=['userId']).groupby('userId').agg(...)\<close>: one row per user, the
  users in ascending order.
\<close>

definition per_user_of :: "Row list \<Rightarrow> UserRow list" where
  "per_user_of rows =
     map (\<lambda>u. agg_user u (filter (\<lambda>r. userId r = Some u) rows))
       (sort (remdups (List.map_filter userId rows)))"

subsection \<open>\<open>analyze\<close>\<close>

record Analysis =
  df :: "Row list"
  per_user :: "UserRow list"

text \<open>
  The function, line by line. Reading a column the table does not have raises
  \<open>KeyError\<close>: \<open>df['newBalance']\<close> and \<open>df['oldBalance']\<close> on line 107, \<open>df['amount']\<close>
  on line 115, and the sort keys \<open>userId\<close> and \<open>walletId\<close> on line 122. The tests
  \<open>'userId' in df.columns\<close> of lines 123, 136 and 144 come after the sort.
\<close>

definition analyze ::
  "(string option list \<Rightarrow> nat \<Rightarrow> int option) \<Rightarrow> Record list \<Rightarrow> py_error + Analysis" where
  "analyze to_datetime recs =
     (if \<not> has_col newBalance recs then Inl (KeyError ''newBalance'')
      else if \<not> has_col oldBalance recs then Inl (KeyError ''oldBalance'')
      else if \<not> has_col amount recs then Inl (KeyError ''amount'')
      else if \<not> has_col userId recs then Inl (KeyError ''userId'')
      else if \<not> has_col walletId recs then Inl (KeyError ''walletId'')
      else
        (let d1 = sort_values (base_rows to_datetime recs);
             d2 = (if has_col userId recs \<and> has_col walletId recs then shift_old d1
                   else map (\<lambda>r. r\<lparr> next_old := None \<rparr>) d1);
             d3 = map set_flow_break d2;
             d4 = (if has_col userId recs
                   then map (\<lambda>r. r\<lparr> delta_anomaly := fillna_False (anomaly_cell d3 r) \<rparr>) d3
                   else map (\<lambda>r. r\<lparr> delta_anomaly := False \<rparr>) d3);
             pu = (if has_col userId recs then per_user_of d4 else [])
         in Inr \<lparr> df = d4, per_user = pu \<rparr>))"

section \<open>The statements of the specification, as definitions\<close>

subsection \<open>Marker lines\<close>

text \<open>
  What the marker patterns accept, written without the matcher: the date shape, any text
  without a line break, the keyword with its colon, at least one whitespace character,
  and 36 identifier characters; anything may follow.
\<close>

definition marker_shape :: "string \<Rightarrow> string \<Rightarrow> bool" where
  "marker_shape lit s =
     (\<exists>d pre ws rid post.
        s = d @ pre @ lit @ ws @ rid @ post \<and>
        match_items date_items d = Some [] \<and>
        newline \<notin> set pre \<and>
        ws \<noteq> [] \<and> list_all is_space ws \<and>
        length rid = 36 \<and> list_all is_idchar rid)"

text \<open>
  The specification's marker line: a date-time token, the literal text (keyword, colon
  and one space), and an identifier in the 8-4-4-4-12 hexadecimal grouping. The
  specification does not fix the token further; it is read here as generously as the
  code reads it, any text that starts with the date shape.
\<close>

definition is_hex :: "char \<Rightarrow> bool" where
  "is_hex c = (c \<in> set ''0123456789abcdefABCDEF'')"

definition canonical_id :: "string \<Rightarrow> bool" where
  "canonical_id r =
     list_all2 (\<lambda>k c. if k \<in> set [8, 13, 18, 23 :: nat] then c = CHR ''-'' else is_hex c)
       [0..<36] r"

definition spec_marker :: "string \<Rightarrow> string \<Rightarrow> bool" where
  "spec_marker lit s =
     list_ex (\<lambda>n. match_items date_items (take n s) \<noteq> None \<and> prefix lit (drop n s) \<and>
                  canonical_id (take 36 (drop (n + length lit) s)))
       [0..<Suc (length s)]"

text \<open>The specification's start timestamp: the part of the line before the \<open>Z\<close>.\<close>

definition spec_start_ts :: "string \<Rightarrow> string" where
  "spec_start_ts s =
     (if CHR ''Z'' \<in> set s then takeWhile (\<lambda>c. c \<noteq> CHR ''Z'') s else take 25 s)"

subsection \<open>Blocks\<close>

text \<open>
  The specification's blocks, read off the (stripped) lines of a source without the
  state machine. The body of a block opened with identifier \<open>rid\<close> runs over the lines
  after its start marker: it stops before the next start marker, stops with the end
  marker that carries \<open>rid\<close>, or runs to the end of the source. Every start marker opens
  one block; no other line does.
\<close>

fun spec_block_body :: "string \<Rightarrow> string list \<Rightarrow> string list" where
  "spec_block_body rid [] = []"
| "spec_block_body rid (l # ls) =
     (if start_re_match l \<noteq> None then []
      else if end_re_match l = Some rid then [l]
      else l # spec_block_body rid ls)"

fun spec_records :: "string \<Rightarrow> string list \<Rightarrow> Record list" where
  "spec_records gz [] = []"
| "spec_records gz (l # ls) =
     (case start_re_match l of
        None \<Rightarrow> spec_records gz ls
      | Some rid \<Rightarrow>
          extract_record (join_lines (l # spec_block_body rid ls)) rid gz
            (Some (capture_start_ts l))
            # spec_records gz ls)"

text \<open>
  Auxiliary notions for the loop: the states the loop can be in, the Record still owed
  for the open block, and the flush after the loop.
\<close>

definition open_ok :: "pstate \<Rightarrow> bool" where
  "open_ok st =
     (case current_id st of None \<Rightarrow> True | Some rid \<Rightarrow> rid \<noteq> [] \<and> buffer_lines st \<noteq> [])"

definition pending :: "string \<Rightarrow> pstate \<Rightarrow> string list \<Rightarrow> Record list" where
  "pending gz st ls =
     (case current_id st of
        None \<Rightarrow> []
      | Some rid \<Rightarrow>
          [extract_record (join_lines (buffer_lines st @ spec_block_body rid ls)) rid gz
             (cur_start_ts st)])"

definition finish :: "string \<Rightarrow> pstate \<times> Record list \<Rightarrow> Record list" where
  "finish gz sr =
     (if truthy (current_id (fst sr)) \<and> buffer_lines (fst sr) \<noteq> []
      then snd sr @ [flush gz (fst sr)] else snd sr)"

subsection \<open>Example inputs\<close>

text \<open>A start line whose identifier has no hyphens, and one with a UUID.\<close>

definition line_plain_id :: string where
  "line_plain_id =
     ''2024-01-01T10:00:00.000Z START RequestId: aaaaaaaaaaaaaaaaaaaaaaaaaaaaaaaaaaaa''"

definition line_uuid :: string where
  "line_uuid =
     ''2024-01-01T10:00:00.000Z START RequestId: 8d5f1c2e-3b4a-4c5d-9e6f-0a1b2c3d4e5f Version: 1''"

text \<open>
  A source with a block that is closed by its end marker, one that is preempted by the
  next start marker, one that is cut off by the end of the source, and lines outside
  every block.
\<close>

definition id1 :: string where
  "id1 = ''11111111-1111-4111-8111-111111111111''"

definition id2 :: string where
  "id2 = ''22222222-2222-4222-8222-222222222222''"

definition id3 :: string where
  "id3 = ''33333333-3333-4333-8333-333333333333''"

definition log_noise :: string where
  "log_noise = ''some line outside every block''"

definition log_start1 :: string where
  "log_start1 = ''2024-01-01T10:00:00.000Z START RequestId: '' @ id1"

definition log_body1 :: string where
  "log_body1 = ''  oldBalance: 10  ''"

definition log_end1 :: string where
  "log_end1 = ''2024-01-01T10:00:01.000Z END RequestId: '' @ id1"

definition log_start2 :: string where
  "log_start2 = ''2024-01-01T10:00:02.000Z START RequestId: '' @ id2"

definition log_body2 :: string where
  "log_body2 = ''newBalance: 7''"

definition log_start3 :: string where
  "log_start3 = ''2024-01-01T10:00:03.000Z START RequestId: '' @ id3"

definition log_body3 :: string where
  "log_body3 = ''amount: 3''"

definition example_log :: "string list" where
  "example_log =
     [log_noise, log_start1, log_body1, log_end1, log_noise, log_start2, log_body2,
      log_start3, log_body3]"


subsection \<open>The analysis\<close>

text \<open>
  The table \<open>analyze\<close> returns when no column is missing, and its state before the
  anomaly column is assigned.
\<close>

definition stage3 :: "(string option list \<Rightarrow> nat \<Rightarrow> int option) \<Rightarrow> Record list \<Rightarrow> Row list" where
  "stage3 T recs = map set_flow_break (shift_old (sort_values (base_rows T recs)))"

definition pipeline :: "(string option list \<Rightarrow> nat \<Rightarrow> int option) \<Rightarrow> Record list \<Rightarrow> Row list" where
  "pipeline T recs =
     (let d3 = map set_flow_break (shift_old (sort_values (base_rows T recs)))
      in map (\<lambda>r. r\<lparr> delta_anomaly := fillna_False (anomaly_cell d3 r) \<rparr>) d3)"

text \<open>
  The columns that are a function of the row alone: a row with the three columns that
  depend on other rows reset.
\<close>

definition core :: "Row \<Rightarrow> Row" where
  "core r = r\<lparr> next_old := None, flow_break := False, delta_anomaly := False \<rparr>"

text \<open>
  The specification's flow continuity. The rows of one \<open>(userId, walletId)\<close> group,
  ordered by \<open>(ts, requestId)\<close> ascending with unknown timestamps last; the row that
  follows the row with index label \<open>i\<close> in such a list; and the flag: both this row's
  \<open>newBalance\<close> and the next row's \<open>oldBalance\<close> are known and differ by more than
  \<open>1e-6\<close>, false for a row with a missing key.
\<close>

definition group_order :: "Row \<Rightarrow> (bool \<times> int option) \<times> string" where
  "group_order r = (na_last (ts r), requestId r)"

definition in_group :: "string \<Rightarrow> string \<Rightarrow> Row \<Rightarrow> bool" where
  "in_group u w r = (userId r = Some u \<and> walletId r = Some w)"

definition spec_group :: "Row list \<Rightarrow> string \<Rightarrow> string \<Rightarrow> Row list" where
  "spec_group rows u w = sort_key group_order (filter (in_group u w) rows)"

fun next_in :: "nat \<Rightarrow> Row list \<Rightarrow> Row option" where
  "next_in i [] = None"
| "next_in i [r] = None"
| "next_in i (r # n # rs) = (if idx r = i then Some n else next_in i (n # rs))"

definition spec_flow_break :: "Row list \<Rightarrow> Row \<Rightarrow> bool" where
  "spec_flow_break rows r =
     (case userId r of
        None \<Rightarrow> False
      | Some u \<Rightarrow>
          (case walletId r of
             None \<Rightarrow> False
           | Some w \<Rightarrow>
               (case next_in (idx r) (spec_group rows u w) of
                  None \<Rightarrow> False
                | Some n \<Rightarrow>
                    (case newBalance_f r of
                       None \<Rightarrow> False
                     | Some x \<Rightarrow>
                         (case oldBalance_f n of
                            None \<Rightarrow> False
                          | Some y \<Rightarrow> \<bar>x - y\<bar> > 1 / 1000000)))))"

text \<open>
  The flag of \<open>z_anomalies\<close> for one row, given the known deltas of its group.
\<close>

definition zflag :: "real list \<Rightarrow> Row \<Rightarrow> bool" where
  "zflag vals x =
     (5 \<le> length vals \<and> std_ddof1 vals \<noteq> 0 \<and>
      fgt (fabs (fsub (delta x) (Some (mean vals)))) (3 * std_ddof1 vals))"

text \<open>
  The specification's last balance of a user: the user's rows in chronological order,
  unknown timestamps last, and the last known \<open>newBalance\<close> in that order.
\<close>

definition spec_last_balance :: "Row list \<Rightarrow> string \<Rightarrow> pyfloat" where
  "spec_last_balance rows u =
     (let g = sort_key (\<lambda>r. na_last (ts r)) (filter (\<lambda>r. userId r = Some u) rows);
          known = List.map_filter newBalance_f g
      in if known = [] then None else Some (last known))"

subsection \<open>Example tables\<close>

text \<open>
  Records as \<open>_extract_record\<close> builds them, with the fields the analysis reads. In
  the examples \<open>pd.to_datetime\<close> is replaced by a reader of the time of day (in
  seconds) of a text of the shape \<open>yyyy-mm-ddThh:mm:ss\<close>.
\<close>

definition example_record ::
  "string \<Rightarrow> string \<Rightarrow> string option \<Rightarrow> string option \<Rightarrow> string option \<Rightarrow> string option \<Rightarrow>
   string option \<Rightarrow> Record" where
  "example_record rid t u w ob nb am =
     \<lparr> requestId = rid, gz_file = ''a.gz'', start_ts = Some t, paymentBalance = None,
       updatePaymentBalance = None, oldBalance = ob, newBalance = nb, amount = am,
       action = None, transactionAction = None, walletId = w, userId = u, email = None,
       business_id = None \<rparr>"

definition example_to_datetime :: "string option list \<Rightarrow> nat \<Rightarrow> int option" where
  "example_to_datetime col i =
     (if i < length col then
        (case col ! i of
           None \<Rightarrow> None
         | Some s \<Rightarrow>
             (case match_items date_items s of
                None \<Rightarrow> None
              | Some rest \<Rightarrow>
                  (case match_items [Digit, Digit, Lit CHR '':'', Digit, Digit, Lit CHR '':'', Digit, Digit] rest of
                     None \<Rightarrow> None
                   | Some _ \<Rightarrow>
                       Some (3600 * digits_value (take 2 rest)
                             + 60 * digits_value (take 2 (drop 3 rest))
                             + digits_value (take 2 (drop 6 rest))))))
      else None)"

text \<open>
  A user \<open>U\<close> with one wallet: a consistent credit, a Record without \<open>amount\<close>, and
  a Record whose balances neither continue the previous ones nor fit its amount. A second
  user \<open>V\<close> has one Record.
\<close>

definition example_records :: "Record list" where
  "example_records =
     [example_record ''r1'' ''2024-01-01T10:00:01.000Z'' (Some ''U'') (Some ''A'')
        (Some ''10'') (Some ''15'') (Some ''5''),
      example_record ''r2'' ''2024-01-01T10:00:02.000Z'' (Some ''U'') (Some ''A'')
        (Some ''15'') (Some ''12'') None,
      example_record ''r3'' ''2024-01-01T10:00:03.000Z'' (Some ''U'') (Some ''A'')
        (Some ''20'') (Some ''18'') (Some ''3''),
      example_record ''r4'' ''2024-01-01T10:00:04.000Z'' (Some ''V'') (Some ''A'')
        (Some ''1'') (Some ''2'') (Some ''1'')]"

text \<open>
  A user \<open>U\<close> with two wallets, the later event on the wallet that sorts first, and a
  second user \<open>V\<close> with one Record.
\<close>

definition two_wallet_records :: "Record list" where
  "two_wallet_records =
     [example_record ''r1'' ''2024-01-01T10:00:10.000Z'' (Some ''U'') (Some ''A'')
        (Some ''0'') (Some ''-5'') (Some ''5''),
      example_record ''r2'' ''2024-01-01T10:00:05.000Z'' (Some ''U'') (Some ''B'')
        (Some ''0'') (Some ''10'') (Some ''10''),
      example_record ''r3'' ''2024-01-01T10:00:07.000Z'' (Some ''V'') (Some ''A'')
        (Some ''1'') (Some ''2'') (Some ''1'')]"

text \<open>
  The result of \<open>analyze\<close> on the first example.
\<close>

definition example_analysis :: Analysis where
  "example_analysis =
     \<lparr> df = pipeline example_to_datetime example_records,
       per_user = per_user_of (pipeline example_to_datetime example_records) \<rparr>"

text \<open>
  The same for the example with two wallets.
\<close>

definition two_wallet_analysis :: Analysis where
  "two_wallet_analysis =
     \<lparr> df = pipeline example_to_datetime two_wallet_records,
       per_user = per_user_of (pipeline example_to_datetime two_wallet_records) \<rparr>"

text \<open>
  A table in which no Record has \<open>oldBalance\<close>, and one in which no Record has
  \<open>userId\<close>.
\<close>

definition no_old_records :: "Record list" where
  "no_old_records =
     [example_record ''r1'' ''2024-01-01T10:00:01.000Z'' (Some ''U'') (Some ''A'')
        None (Some ''15'') (Some ''5'')]"

definition no_user_records :: "Record list" where
  "no_user_records =
     [example_record ''r1'' ''2024-01-01T10:00:01.000Z'' None (Some ''A'')
        (Some ''10'') (Some ''15'') (Some ''5'')]"

text \<open>
  Eleven Records of a user \<open>U\<close>: ten leave the balance at 0, the last raises it by 11.
  A second user \<open>V\<close> has one Record.
\<close>

definition outlier_records :: "Record list" where
  "outlier_records =
     map (\<lambda>k. example_record (''r'' @ k) (''2024-01-01T10:00:'' @ k @ ''.000Z'') (Some ''U'')
                (Some ''A'') (Some ''0'') (Some (if k = ''10'' then ''11'' else ''0'')) (Some ''0''))
       [''00'', ''01'', ''02'', ''03'', ''04'', ''05'', ''06'', ''07'', ''08'', ''09'', ''10'']
     @ [example_record ''r11'' ''2024-01-01T10:00:11.000Z'' (Some ''V'') (Some ''A'')
          (Some ''1'') (Some ''2'') (Some ''1'')]"

definition outlier_analysis :: Analysis where
  "outlier_analysis =
     \<lparr> df = pipeline example_to_datetime outlier_records,
       per_user = per_user_of (pipeline example_to_datetime outlier_records) \<rparr>"

section \<open>Properties of the block reconstruction\<close>

subsection \<open>The marker patterns\<close>

lemma dot_star_iff:
  "dot_star k s \<noteq> None \<longleftrightarrow>
     (\<exists>pre post. s = pre @ post \<and> newline \<notin> set pre \<and> k post \<noteq> None)"
proof (induction s)
  case Nil
  then show ?case by simp
next
  case (Cons c cs)
  show ?case
  proof (cases "c = newline")
    case True
    have "(\<exists>pre post. c # cs = pre @ post \<and> newline \<notin> set pre \<and> k post \<noteq> None)
            \<longleftrightarrow> k (c # cs) \<noteq> None"
    proof
      assume "\<exists>pre post. c # cs = pre @ post \<and> newline \<notin> set pre \<and> k post \<noteq> None"
      then obtain pre post where h: "c # cs = pre @ post" "newline \<notin> set pre" "k post \<noteq> None"
        by blast
      have "pre = []" using h True by (cases pre) auto
      then show "k (c # cs) \<noteq> None" using h by simp
    next
      assume "k (c # cs) \<noteq> None"
      then have "c # cs = [] @ (c # cs) \<and> newline \<notin> set [] \<and> k (c # cs) \<noteq> None" by simp
      then show "\<exists>pre post. c # cs = pre @ post \<and> newline \<notin> set pre \<and> k post \<noteq> None"
        by blast
    qed
    then show ?thesis using True by simp
  next
    case False
    have "(\<exists>pre post. c # cs = pre @ post \<and> newline \<notin> set pre \<and> k post \<noteq> None) \<longleftrightarrow>
          (k (c # cs) \<noteq> None \<or>
           (\<exists>pre post. cs = pre @ post \<and> newline \<notin> set pre \<and> k post \<noteq> None))"
    proof
      assume "\<exists>pre post. c # cs = pre @ post \<and> newline \<notin> set pre \<and> k post \<noteq> None"
      then obtain pre post where h: "c # cs = pre @ post" "newline \<notin> set pre" "k post \<noteq> None"
        by blast
      show "k (c # cs) \<noteq> None \<or>
            (\<exists>pre post. cs = pre @ post \<and> newline \<notin> set pre \<and> k post \<noteq> None)"
      proof (cases pre)
        case Nil
        then show ?thesis using h by simp
      next
        case (Cons p ps)
        then have "cs = ps @ post \<and> newline \<notin> set ps \<and> k post \<noteq> None" using h by simp
        then show ?thesis by blast
      qed
    next
      assume "k (c # cs) \<noteq> None \<or>
              (\<exists>pre post. cs = pre @ post \<and> newline \<notin> set pre \<and> k post \<noteq> None)"
      then show "\<exists>pre post. c # cs = pre @ post \<and> newline \<notin> set pre \<and> k post \<noteq> None"
      proof
        assume "k (c # cs) \<noteq> None"
        then have "c # cs = [] @ (c # cs) \<and> newline \<notin> set [] \<and> k (c # cs) \<noteq> None" by simp
        then show ?thesis by blast
      next
        assume "\<exists>pre post. cs = pre @ post \<and> newline \<notin> set pre \<and> k post \<noteq> None"
        then obtain pre post where "cs = pre @ post" "newline \<notin> set pre" "k post \<noteq> None"
          by blast
        then have "c # cs = (c # pre) @ post \<and> newline \<notin> set (c # pre) \<and> k post \<noteq> None"
          using False by simp
        then show ?thesis by blast
      qed
    qed
    then show ?thesis using False Cons.IH by (auto split: option.splits)
  qed
qed

lemma idchar_not_space: "is_idchar c \<Longrightarrow> \<not> is_space c"
  by (auto simp: is_idchar_def is_space_def py_whitespace_def)

lemma rid_after_iff:
  "rid_after lit t \<noteq> None \<longleftrightarrow>
     (\<exists>ws rid post. t = lit @ ws @ rid @ post \<and> ws \<noteq> [] \<and> list_all is_space ws \<and>
        length rid = 36 \<and> list_all is_idchar rid)"
proof
  assume a: "rid_after lit t \<noteq> None"
  then have p: "prefix lit t" by (auto simp: rid_after_def split: if_splits)
  define u where "u = drop (length lit) t"
  define ws where "ws = takeWhile is_space u"
  define v where "v = dropWhile is_space u"
  define rid where "rid = take 36 v"
  from a p have c: "ws \<noteq> []" "length rid = 36" "list_all is_idchar rid"
    by (auto simp: rid_after_def Let_def u_def ws_def v_def rid_def split: if_splits)
  have "t = lit @ u" using p by (auto simp: u_def prefix_def)
  moreover have "u = ws @ v" by (simp add: ws_def v_def)
  moreover have "v = rid @ drop 36 v" by (simp add: rid_def)
  ultimately have "t = lit @ ws @ rid @ drop 36 v" by simp
  moreover have "list_all is_space ws"
    by (simp add: ws_def list_all_iff) (meson set_takeWhileD)
  ultimately show "\<exists>ws rid post. t = lit @ ws @ rid @ post \<and> ws \<noteq> [] \<and> list_all is_space ws \<and>
        length rid = 36 \<and> list_all is_idchar rid" using c by blast
next
  assume "\<exists>ws rid post. t = lit @ ws @ rid @ post \<and> ws \<noteq> [] \<and> list_all is_space ws \<and>
        length rid = 36 \<and> list_all is_idchar rid"
  then obtain ws rid post where h: "t = lit @ ws @ rid @ post" "ws \<noteq> []" "list_all is_space ws"
        "length rid = 36" "list_all is_idchar rid" by blast
  from h(4) obtain r rs where r: "rid = r # rs" by (cases rid) auto
  have nr: "\<not> is_space r" using h(5) r idchar_not_space by simp
  have d: "dropWhile is_space (ws @ rid @ post) = rid @ post"
    using h(3) nr r by (simp add: dropWhile_append list_all_iff)
  have tw: "takeWhile is_space (ws @ rid @ post) = ws"
    using h(3) nr r by (simp add: takeWhile_append list_all_iff)
  show "rid_after lit t \<noteq> None"
    using h d tw by (simp add: rid_after_def Let_def)
qed

lemma match_items_split:
  "match_items is s = Some rest \<Longrightarrow> \<exists>d. s = d @ rest \<and> match_items is d = Some []"
proof (induction "is" s rule: match_items.induct)
  case (1 s)
  then show ?case by simp
next
  case (2 i "is")
  then show ?case by simp
next
  case (3 "is" c cs)
  then have c: "is_digit c" and m: "match_items is cs = Some rest" by (auto split: if_splits)
  from 3(1)[OF c m] obtain d where "cs = d @ rest" "match_items is d = Some []" by blast
  then have "c # cs = (c # d) @ rest \<and> match_items (Digit # is) (c # d) = Some []"
    using c by simp
  then show ?case by blast
next
  case (4 a "is" c cs)
  then have c: "c = a" and m: "match_items is cs = Some rest" by (auto split: if_splits)
  from 4(1)[OF c m] obtain d where "cs = d @ rest" "match_items is d = Some []" by blast
  then have "c # cs = (c # d) @ rest \<and> match_items (Lit a # is) (c # d) = Some []"
    using c by simp
  then show ?case by blast
qed

lemma match_items_append:
  "match_items is d = Some [] \<Longrightarrow> match_items is (d @ rest) = Some rest"
  by (induction "is" d rule: match_items.induct) (auto split: if_splits)

lemma marker_match_iff: "marker_match lit s \<noteq> None \<longleftrightarrow> marker_shape lit s"
proof
  assume a: "marker_match lit s \<noteq> None"
  then obtain rest where r: "match_items date_items s = Some rest"
      "dot_star (rid_after lit) rest \<noteq> None"
    by (auto simp: marker_match_def split: option.splits)
  from match_items_split[OF r(1)] obtain d where d: "s = d @ rest"
      "match_items date_items d = Some []" by blast
  from r(2) obtain pre post where p: "rest = pre @ post" "newline \<notin> set pre"
      "rid_after lit post \<noteq> None"
    unfolding dot_star_iff by blast
  from p(3) obtain ws rid post' where w: "post = lit @ ws @ rid @ post'" "ws \<noteq> []"
      "list_all is_space ws" "length rid = 36" "list_all is_idchar rid"
    unfolding rid_after_iff by blast
  have "s = d @ pre @ lit @ ws @ rid @ post'" using d p w by simp
  then show "marker_shape lit s" unfolding marker_shape_def using d(2) p(2) w by blast
next
  assume "marker_shape lit s"
  then obtain d pre ws rid post where h: "s = d @ pre @ lit @ ws @ rid @ post"
        "match_items date_items d = Some []" "newline \<notin> set pre"
        "ws \<noteq> []" "list_all is_space ws" "length rid = 36" "list_all is_idchar rid"
    unfolding marker_shape_def by blast
  have 1: "match_items date_items s = Some (pre @ lit @ ws @ rid @ post)"
    using match_items_append[OF h(2)] h(1) by simp
  have "rid_after lit (lit @ ws @ rid @ post) \<noteq> None" unfolding rid_after_iff using h by blast
  then have "dot_star (rid_after lit) (pre @ lit @ ws @ rid @ post) \<noteq> None"
    unfolding dot_star_iff using h(3) by blast
  then show "marker_match lit s \<noteq> None" using 1 by (simp add: marker_match_def)
qed

lemma rid_after_length: "rid_after lit t = Some rid \<Longrightarrow> length rid = 36"
  by (auto simp: rid_after_def Let_def split: if_splits)

lemma dot_star_length: "dot_star (rid_after lit) s = Some rid \<Longrightarrow> length rid = 36"
  by (induction s) (auto split: if_splits option.splits dest: rid_after_length)

lemma marker_match_length: "marker_match lit s = Some rid \<Longrightarrow> length rid = 36"
  by (auto simp: marker_match_def split: option.splits dest: dot_star_length)

lemma marker_match_nonempty: "marker_match lit s = Some rid \<Longrightarrow> rid \<noteq> []"
  by (drule marker_match_length) auto

lemma step_plain_line:
  assumes "start_re_match (strip raw) = None" and "end_re_match (strip raw) = None"
  shows "current_id (fst (step gz (st, recs) raw)) = current_id st"
    and "snd (step gz (st, recs) raw) = recs"
  using assms by (simp_all add: step_def Let_def)

text \<open>
  C8, as the specification states it, fails: the identifier of a marker line need not
  have the 8-4-4-4-12 grouping. The line below, whose identifier is 36 letters \<open>a\<close>, is
  a start marker for the code.
\<close>

theorem marker_grouping_counterexample:
  "start_re_match line_plain_id \<noteq> None \<and> \<not> spec_marker ''START RequestId: '' line_plain_id"
  by code_simp

text \<open>
  C8, amended: a line is a start (an end) marker exactly when it has the date shape
  (four digits, hyphen, two digits, hyphen, two digits, \<open>T\<close>) at its start and, after any
  text without a line break, the text \<open>START RequestId:\<close> (\<open>END RequestId:\<close>), at least
  one whitespace character and 36 characters that are digits, letters \<open>a\<close> to \<open>f\<close> or
  hyphens, in any arrangement. A line that is neither kind of marker leaves the
  identifier of the open block as it is and emits no Record.
\<close>

theorem marker_lines:
  "(start_re_match s \<noteq> None \<longleftrightarrow> marker_shape ''START RequestId:'' s) \<and>
   (end_re_match s \<noteq> None \<longleftrightarrow> marker_shape ''END RequestId:'' s) \<and>
   (start_re_match (strip raw) = None \<and> end_re_match (strip raw) = None \<longrightarrow>
      current_id (fst (step gz (st, recs) raw)) = current_id st \<and>
      snd (step gz (st, recs) raw) = recs)"
  using marker_match_iff[of "''START RequestId:''" s] marker_match_iff[of "''END RequestId:''" s]
    step_plain_line[of raw gz st recs]
  by (simp add: start_re_match_def end_re_match_def)

theorem marker_lines_witness:
  "marker_shape ''START RequestId:'' line_plain_id \<and>
   current_id (fst (step ''a.gz'' (init_state, []) ''hello'')) = current_id init_state \<and>
   snd (step ''a.gz'' (init_state, []) ''hello'') = []"
proof -
  have a: "start_re_match line_plain_id \<noteq> None" by code_simp
  have b: "start_re_match (strip ''hello'') = None" by code_simp
  have c: "end_re_match (strip ''hello'') = None" by code_simp
  show ?thesis
    using marker_lines[of line_plain_id "''hello''" "''a.gz''" init_state "[]"] a b c by simp
qed

subsection \<open>The start timestamp\<close>

lemma split_on_nonempty: "split_on c s \<noteq> []"
  by (induction s) (auto simp: Let_def)

lemma hd_split_on: "hd (split_on c s) = takeWhile (\<lambda>x. x \<noteq> c) s"
  by (induction s) (auto simp: Let_def)

text \<open>
  C9, as the specification states it, fails: for a start line with a \<open>Z\<close> the captured
  timestamp is not the text before the \<open>Z\<close>; the code puts the \<open>Z\<close> back.
\<close>

theorem start_ts_counterexample:
  "start_re_match (strip line_uuid) \<noteq> None \<and>
   cur_start_ts (fst (step ''a.gz'' (init_state, []) line_uuid))
     \<noteq> Some (spec_start_ts (strip line_uuid))"
  by code_simp

text \<open>
  C9, amended: for every start-marker line the captured \<open>start_ts\<close> is the line up to
  and including its first \<open>Z\<close> when the line has one, and its first 25 characters
  otherwise (the line with the whitespace at its ends removed).
\<close>

theorem start_ts_capture:
  assumes "start_re_match (strip raw) \<noteq> None"
  shows "cur_start_ts (fst (step gz sr raw)) =
           Some (if CHR ''Z'' \<in> set (strip raw)
                 then takeWhile (\<lambda>c. c \<noteq> CHR ''Z'') (strip raw) @ ''Z''
                 else take 25 (strip raw))"
  using assms by (auto simp: step_def Let_def capture_start_ts_def hd_split_on)

theorem start_ts_capture_witness:
  "start_re_match (strip line_uuid) \<noteq> None \<and>
   cur_start_ts (fst (step ''a.gz'' (init_state, []) line_uuid)) = Some ''2024-01-01T10:00:00.000Z''"
proof -
  have a: "start_re_match (strip line_uuid) \<noteq> None" by code_simp
  have b: "(if CHR ''Z'' \<in> set (strip line_uuid)
            then takeWhile (\<lambda>c. c \<noteq> CHR ''Z'') (strip line_uuid) @ ''Z''
            else take 25 (strip line_uuid)) = ''2024-01-01T10:00:00.000Z''" by code_simp
  show ?thesis
    using start_ts_capture[OF a, of "''a.gz''" "(init_state, [])"] a b by simp
qed

subsection \<open>One Record per block\<close>

lemma step_run:
  "open_ok st \<Longrightarrow>
   finish gz (foldl (step gz) (st, acc) raws) =
     acc @ pending gz st (map strip raws) @ spec_records gz (map strip raws)"
proof (induction raws arbitrary: st acc)
  case Nil
  then show ?case
    by (auto simp: finish_def pending_def open_ok_def truthy_def flush_def split: option.splits)
next
  case (Cons raw raws)
  define s where "s = strip raw"
  show ?case
  proof (cases "start_re_match s")
    case (Some rid')
    define st' where "st' =
      \<lparr> current_id = Some rid', buffer_lines = [s], cur_start_ts = Some (capture_start_ts s) \<rparr>"
    define acc' where "acc' =
      (if truthy (current_id st) \<and> buffer_lines st \<noteq> [] then acc @ [flush gz st] else acc)"
    have stp: "step gz (st, acc) raw = (st', acc')"
      using Some by (simp add: step_def s_def st'_def acc'_def Let_def)
    have ok: "open_ok st'"
      using Some marker_match_nonempty by (auto simp: open_ok_def st'_def start_re_match_def)
    have a: "acc' = acc @ pending gz st (s # map strip raws)"
      using Cons.prems Some
      by (auto simp: acc'_def pending_def open_ok_def truthy_def flush_def split: option.splits)
    have p: "pending gz st' (map strip raws) @ spec_records gz (map strip raws)
               = spec_records gz (s # map strip raws)"
      using Some by (simp add: pending_def st'_def)
    show ?thesis
      using Cons.IH[OF ok, of acc'] stp a p by (simp add: s_def)
  next
    case None
    show ?thesis
    proof (cases "current_id st")
      case cn: None
      have stp: "step gz (st, acc) raw = (st, acc)"
        using None cn by (simp add: step_def s_def Let_def truthy_def)
      show ?thesis
        using Cons.IH[OF Cons.prems, of acc] stp None cn by (simp add: s_def pending_def)
    next
      case (Some rid)
      then have tr: "truthy (current_id st)" and bn: "buffer_lines st \<noteq> []"
        using Cons.prems by (auto simp: open_ok_def truthy_def)
      show ?thesis
      proof (cases "end_re_match s = Some rid")
        case True
        define r where "r = flush gz (st\<lparr> buffer_lines := buffer_lines st @ [s] \<rparr>)"
        have stp: "step gz (st, acc) raw = (init_state, acc @ [r])"
          using None Some True tr by (simp add: step_def s_def Let_def r_def)
        have ok: "open_ok init_state" by (simp add: open_ok_def init_state_def)
        have a: "[r] = pending gz st (s # map strip raws)"
          using None Some True by (simp add: pending_def flush_def r_def)
        have p: "pending gz init_state (map strip raws) = []"
          by (simp add: pending_def init_state_def)
        show ?thesis
          using Cons.IH[OF ok, of "acc @ [r]"] stp a p None by (simp add: s_def)
      next
        case False
        define st' where "st' = st\<lparr> buffer_lines := buffer_lines st @ [s] \<rparr>"
        have stp: "step gz (st, acc) raw = (st', acc)"
          using None Some False tr by (auto simp: step_def s_def Let_def st'_def)
        have ok: "open_ok st'" using Cons.prems Some by (simp add: open_ok_def st'_def)
        have p: "pending gz st' (map strip raws) = pending gz st (s # map strip raws)"
          using None Some False by (simp add: pending_def st'_def)
        show ?thesis
          using Cons.IH[OF ok, of acc] stp p None by (simp add: s_def)
      qed
    qed
  qed
qed

lemma length_spec_records:
  "length (spec_records gz ls) = length (filter (\<lambda>l. start_re_match l \<noteq> None) ls)"
  by (induction ls) (auto split: option.splits)

lemma parse_file_exhausted:
  "parse_file records (gz, raws, Exhausted) = records @ spec_records gz (map strip raws)"
proof -
  have ok: "open_ok init_state" by (simp add: open_ok_def init_state_def)
  have "parse_file records (gz, raws, Exhausted)
          = finish gz (foldl (step gz) (init_state, records) raws)"
    by (simp add: parse_file_def finish_def Let_def)
  then show ?thesis
    using step_run[OF ok, of gz records raws] by (simp add: pending_def init_state_def)
qed

text \<open>
  C1: for a source read to its end, the Records appended are exactly the specification's
  blocks, in order: one Record for each start marker, tagged with that marker's
  identifier and start timestamp, whose text runs to the matching end marker, to the
  line before the next start marker, or to the end of the source. Their number is the
  number of start-marker lines, so lines outside every block add nothing.
\<close>

theorem block_records:
  "parse_file records (gz, raws, Exhausted) = records @ spec_records gz (map strip raws) \<and>
   length (spec_records gz (map strip raws))
     = length (filter (\<lambda>l. start_re_match l \<noteq> None) (map strip raws))"
  using parse_file_exhausted[of records gz raws] length_spec_records[of gz "map strip raws"]
  by simp

lemma example_log_markers:
  "start_re_match (strip log_noise) = None"
  "start_re_match (strip log_start1) = Some id1"
  "start_re_match (strip log_body1) = None"
  "start_re_match (strip log_end1) = None"
  "start_re_match (strip log_start2) = Some id2"
  "start_re_match (strip log_body2) = None"
  "start_re_match (strip log_start3) = Some id3"
  "start_re_match (strip log_body3) = None"
  "end_re_match (strip log_body1) = None"
  "end_re_match (strip log_end1) = Some id1"
  "end_re_match (strip log_body2) = None"
  "end_re_match (strip log_body3) = None"
  by code_simp+

lemma example_log_fields:
  "search (num_pat ''oldBalance:'') (join_lines [strip log_start1, strip log_body1, strip log_end1])
     = Some ''10''"
  "search (num_pat ''oldBalance:'') (join_lines [strip log_start2, strip log_body2]) = None"
  "search (num_pat ''oldBalance:'') (join_lines [strip log_start3, strip log_body3]) = None"
  "search (num_pat ''newBalance:'') (join_lines [strip log_start1, strip log_body1, strip log_end1])
     = None"
  "search (num_pat ''newBalance:'') (join_lines [strip log_start2, strip log_body2]) = Some ''7''"
  "search (num_pat ''newBalance:'') (join_lines [strip log_start3, strip log_body3]) = None"
  by code_simp+

text \<open>
  The example source: three start markers give three Records, in order; the first holds
  the text up to its end marker, the second the text up to the third start marker, the
  third the text up to the end of the source; the lines outside give none.
\<close>

theorem block_records_witness:
  "map requestId (parse_file [] (''a.gz'', example_log, Exhausted)) = [id1, id2, id3] \<and>
   map oldBalance (parse_file [] (''a.gz'', example_log, Exhausted)) = [Some ''10'', None, None] \<and>
   map newBalance (parse_file [] (''a.gz'', example_log, Exhausted)) = [None, Some ''7'', None] \<and>
   length (filter (\<lambda>l. start_re_match l \<noteq> None) (map strip example_log)) = 3"
proof -
  have a: "spec_records ''a.gz'' (map strip example_log) =
      [extract_record (join_lines [strip log_start1, strip log_body1, strip log_end1]) id1
         ''a.gz'' (Some (capture_start_ts (strip log_start1))),
       extract_record (join_lines [strip log_start2, strip log_body2]) id2
         ''a.gz'' (Some (capture_start_ts (strip log_start2))),
       extract_record (join_lines [strip log_start3, strip log_body3]) id3
         ''a.gz'' (Some (capture_start_ts (strip log_start3)))]"
    by (simp add: example_log_def example_log_markers)
  have b: "map requestId (spec_records ''a.gz'' (map strip example_log)) = [id1, id2, id3]"
    unfolding a by (simp add: extract_record_def)
  have c: "map oldBalance (spec_records ''a.gz'' (map strip example_log)) = [Some ''10'', None, None]"
    unfolding a using example_log_fields by (simp add: extract_record_def)
  have d: "map newBalance (spec_records ''a.gz'' (map strip example_log)) = [None, Some ''7'', None]"
    unfolding a using example_log_fields by (simp add: extract_record_def)
  have e: "length (spec_records ''a.gz'' (map strip example_log)) = 3"
    unfolding a by simp
  show ?thesis
    using block_records[of "[]" "''a.gz''" example_log] b c d e by simp
qed

section \<open>Properties of the analysis\<close>

subsection \<open>The columns of a row\<close>

lemma core_base_row: "core (base_row i t r) = base_row i t r"
  by (simp add: core_def base_row_def row0_def Let_def Record.defs Row.defs)

lemma core_fields [simp]:
  "requestId (core r) = requestId r" "userId (core r) = userId r" "walletId (core r) = walletId r"
  "amount (core r) = amount r"
  "idx (core r) = idx r" "ts (core r) = ts r" "oldBalance_f (core r) = oldBalance_f r"
  "newBalance_f (core r) = newBalance_f r" "amount_f (core r) = amount_f r"
  "delta (core r) = delta r" "amount_sign (core r) = amount_sign r"
  "expected_delta (core r) = expected_delta r" "mismatch (core r) = mismatch r"
  "overdraft_before (core r) = overdraft_before r" "overdraft_after (core r) = overdraft_after r"
  "overdraft_cross (core r) = overdraft_cross r"
  by (simp_all add: core_def)

lemma core_updates [simp]:
  "core (r\<lparr> next_old := x \<rparr>) = core r"
  "core (r\<lparr> flow_break := b \<rparr>) = core r"
  "core (r\<lparr> delta_anomaly := b \<rparr>) = core r"
  by (simp_all add: core_def)

lemma core_set_flow_break [simp]: "core (set_flow_break r) = core r"
  by (simp add: set_flow_break_def)

lemma map_core_shift_old: "map core (shift_old rs) = map core rs"
  by (induction rs) auto

lemma base_rows_core: "r \<in> set (base_rows T recs) \<Longrightarrow> core r = r"
  by (auto simp: base_rows_def core_base_row)

lemma analyze_Inr:
  assumes "analyze T recs = Inr a"
  shows "df a = pipeline T recs" and "per_user a = per_user_of (pipeline T recs)"
    and "has_col newBalance recs" and "has_col oldBalance recs" and "has_col amount recs"
    and "has_col userId recs" and "has_col walletId recs"
  using assms by (auto simp: analyze_def pipeline_def Let_def split: if_splits)

lemma analyze_ok:
  assumes "has_col newBalance recs" "has_col oldBalance recs" "has_col amount recs"
    "has_col userId recs" "has_col walletId recs"
  shows "analyze T recs = Inr \<lparr> df = pipeline T recs, per_user = per_user_of (pipeline T recs) \<rparr>"
  using assms by (simp add: analyze_def pipeline_def Let_def)

lemma map_core_anomaly: "map core (map (\<lambda>r. r\<lparr> delta_anomaly := f r \<rparr>) xs) = map core xs"
  by (induction xs) simp_all

lemma map_core_flow: "map core (map set_flow_break xs) = map core xs"
  by (induction xs) simp_all

lemma map_core_pipeline: "map core (pipeline T recs) = sort_values (base_rows T recs)"
proof -
  have "map core (pipeline T recs) = map core (sort_values (base_rows T recs))"
    unfolding pipeline_def Let_def
    by (simp only: map_core_anomaly map_core_flow map_core_shift_old)
  moreover have "map core (sort_values (base_rows T recs)) = sort_values (base_rows T recs)"
    by (rule map_idI) (simp add: sort_values_def base_rows_core)
  ultimately show ?thesis by simp
qed

lemma length_pipeline: "length (pipeline T recs) = length recs"
proof -
  have "length (map core (pipeline T recs)) = length recs"
    unfolding map_core_pipeline by (simp add: sort_values_def base_rows_def)
  then show ?thesis by simp
qed

lemma pipeline_row:
  assumes "r \<in> set (pipeline T recs)"
  shows "\<exists>i t rc. core r = base_row i t rc"
proof -
  have "core r \<in> set (map core (pipeline T recs))" using assms by simp
  then have "core r \<in> set (base_rows T recs)"
    by (simp add: map_core_pipeline sort_values_def)
  then show ?thesis by (auto simp: base_rows_def)
qed

lemma base_row_fields:
  "amount (base_row i t r) = amount r"
  "amount_f (base_row i t r) = to_float (amount r)"
  "delta (base_row i t r) = fsub (to_float (newBalance r)) (to_float (oldBalance r))"
  "amount_sign (base_row i t r) = best_sign (base_row i t r)"
  "expected_delta (base_row i t r) = fmul (amount_f (base_row i t r)) (amount_sign (base_row i t r))"
  "mismatch (base_row i t r) =
     fgt (fabs (fsub (delta (base_row i t r)) (expected_delta (base_row i t r)))) tol"
  by (simp_all add: base_row_def row0_def Let_def Record.defs Row.defs best_sign_def)

lemma row_facts:
  assumes "analyze T recs = Inr a" and "r \<in> set (df a)"
  shows "amount_f r = to_float (amount r)"
    and "amount_sign r = best_sign (core r)"
    and "expected_delta r = fmul (amount_f r) (amount_sign r)"
    and "mismatch r = fgt (fabs (fsub (delta r) (expected_delta r))) tol"
proof -
  from assms obtain i t rc where c: "core r = base_row i t rc"
    using analyze_Inr(1) pipeline_row by metis
  have "amount_f (core r) = to_float (amount (core r))" unfolding c by (simp add: base_row_fields)
  then show "amount_f r = to_float (amount r)" by simp
  have "amount_sign (core r) = best_sign (core r)" unfolding c by (simp add: base_row_fields)
  then show "amount_sign r = best_sign (core r)" by simp
  have "expected_delta (core r) = fmul (amount_f (core r)) (amount_sign (core r))"
    unfolding c by (simp add: base_row_fields)
  then show "expected_delta r = fmul (amount_f r) (amount_sign r)" by simp
  have "mismatch (core r) = fgt (fabs (fsub (delta (core r)) (expected_delta (core r)))) tol"
    unfolding c by (simp add: base_row_fields)
  then show "mismatch r = fgt (fabs (fsub (delta r) (expected_delta r))) tol" by simp
qed

lemma example_cols:
  "has_col newBalance example_records" "has_col oldBalance example_records"
  "has_col amount example_records" "has_col userId example_records"
  "has_col walletId example_records"
  by code_simp+

lemma example_ok: "analyze example_to_datetime example_records = Inr example_analysis"
  unfolding example_analysis_def by (rule analyze_ok[OF example_cols])

lemma example_mem:
  "df example_analysis ! 0 \<in> set (df example_analysis)"
  "df example_analysis ! 1 \<in> set (df example_analysis)"
  "df example_analysis ! 2 \<in> set (df example_analysis)"
  by (simp_all add: example_analysis_def length_pipeline example_records_def)





subsection \<open>Flow continuity\<close>

lemma insort_key_cong_order:
  "(\<And>y. y \<in> set ys \<Longrightarrow> (f x \<le> f y) = (g x \<le> g y)) \<Longrightarrow> insort_key f x ys = insort_key g x ys"
  by (induction ys) auto

lemma sort_key_cong_order:
  "(\<And>x y. x \<in> set xs \<Longrightarrow> y \<in> set xs \<Longrightarrow> (f x \<le> f y) = (g x \<le> g y)) \<Longrightarrow>
   sort_key f xs = sort_key g xs"
proof (induction xs)
  case Nil
  then show ?case by simp
next
  case (Cons x xs)
  have ih: "sort_key f xs = sort_key g xs" using Cons by simp
  have "insort_key f x (sort_key g xs) = insort_key g x (sort_key g xs)"
    by (rule insort_key_cong_order) (use Cons.prems in simp)
  then show ?case using ih by (simp add: sort_key_simps)
qed

lemma group_sort_cols:
  assumes "in_group u w x" and "in_group u w y"
  shows "(sort_cols x \<le> sort_cols y) = (group_order x \<le> group_order y)"
  using assms by (auto simp: in_group_def sort_cols_def group_order_def na_last_def)

lemma filter_sorted_group:
  "filter (in_group u w) (sort_values rows) = spec_group rows u w"
proof -
  have "filter (in_group u w) (sort_key sort_cols rows) = sort_key sort_cols (filter (in_group u w) rows)"
    by (rule filter_sort)
  also have "\<dots> = sort_key group_order (filter (in_group u w) rows)"
    by (rule sort_key_cong_order) (auto simp: group_sort_cols)
  finally show ?thesis by (simp add: sort_values_def spec_group_def)
qed

lemma next_in_append:
  "i \<notin> idx ` set A \<Longrightarrow> idx x = i \<Longrightarrow>
   next_in i (A @ x # B) = (case B of [] \<Rightarrow> None | b # _ \<Rightarrow> Some b)"
proof (induction A)
  case Nil
  then show ?case by (cases B) auto
next
  case (Cons a A)
  then show ?case by (cases A) auto
qed

lemma find_filter: "find P xs = (case filter P xs of [] \<Rightarrow> None | b # _ \<Rightarrow> Some b)"
  by (induction xs) auto

lemma shift_old_fields [simp]:
  "map idx (shift_old xs) = map idx xs"
  "map userId (shift_old xs) = map userId xs"
  "map walletId (shift_old xs) = map walletId xs"
  by (induction xs) auto

lemma same_group_upd [simp]: "same_group (r\<lparr> next_old := v \<rparr>) = same_group r"
  by (rule ext) (simp add: same_group_def)

lemma shift_old_next:
  "distinct (map idx (pre @ xs)) \<Longrightarrow> r \<in> set (shift_old xs) \<Longrightarrow>
   next_old r =
     (case next_in (idx r) (filter (same_group r) (pre @ xs)) of
        None \<Rightarrow> None | Some n \<Rightarrow> oldBalance_f n)"
proof (induction xs arbitrary: pre)
  case Nil
  then show ?case by simp
next
  case (Cons x xs)
  from Cons.prems(2) consider
      (hd) "r = x\<lparr> next_old := (case find (same_group x) xs of None \<Rightarrow> None | Some n \<Rightarrow> oldBalance_f n) \<rparr>"
    | (tl) "r \<in> set (shift_old xs)" by auto
  then show ?case
  proof cases
    case hd
    show ?thesis
    proof (cases "same_group x x")
      case True
      have ni: "idx x \<notin> idx ` set (filter (same_group x) pre)"
        using Cons.prems(1) by auto
      have "filter (same_group x) (pre @ x # xs)
              = filter (same_group x) pre @ x # filter (same_group x) xs"
        using True by simp
      then have "next_in (idx x) (filter (same_group x) (pre @ x # xs))
              = (case filter (same_group x) xs of [] \<Rightarrow> None | b # _ \<Rightarrow> Some b)"
        using next_in_append[OF ni, of x] by simp
      then show ?thesis
        using hd by (simp add: find_filter[symmetric])
    next
      case False
      then have "\<And>y. \<not> same_group x y" by (auto simp: same_group_def)
      then show ?thesis using hd by (simp add: find_filter)
    qed
  next
    case tl
    have "distinct (map idx ((pre @ [x]) @ xs))" using Cons.prems(1) by simp
    from Cons.IH[OF this tl] show ?thesis by simp
  qed
qed

lemma idx_base_row [simp]: "idx (base_row i t r) = i"
  by (simp add: base_row_def row0_def Let_def Record.defs Row.defs)

lemma map_idx_base_rows: "map idx (base_rows T recs) = [0..<length recs]"
proof -
  have "map idx (base_rows T recs) = map fst (enumerate 0 recs)"
    unfolding base_rows_def by (simp add: case_prod_unfold comp_def)
  then show ?thesis by (simp add: map_fst_enumerate)
qed

lemma distinct_idx_sorted: "distinct (map idx (sort_values (base_rows T recs)))"
proof -
  have d: "distinct (map idx (base_rows T recs))" by (simp add: map_idx_base_rows)
  then have "distinct (base_rows T recs)" and "inj_on idx (set (base_rows T recs))"
    by (simp_all add: distinct_map)
  then show ?thesis by (simp add: distinct_map sort_values_def)
qed

lemma pipeline_flow:
  assumes "r \<in> set (pipeline T recs)"
  shows "\<exists>r2 \<in> set (shift_old (sort_values (base_rows T recs))).
           next_old r = next_old r2 \<and> core r = core r2 \<and>
           flow_break r = (newBalance_f r2 \<noteq> None \<and> next_old r2 \<noteq> None \<and>
                           fgt (fabs (fsub (newBalance_f r2) (next_old r2))) tol)"
  using assms by (auto simp: pipeline_def Let_def set_flow_break_def)

lemma same_group_core: "core a = core b \<Longrightarrow> same_group a = same_group b"
proof (rule ext)
  fix x assume "core a = core b"
  then have "userId (core a) = userId (core b)" "walletId (core a) = walletId (core b)" by simp_all
  then show "same_group a x = same_group b x" by (simp add: same_group_def)
qed

lemma same_group_in_group:
  "userId r = Some u \<Longrightarrow> walletId r = Some w \<Longrightarrow> same_group r = in_group u w"
  by (rule ext) (auto simp: same_group_def in_group_def)



subsection \<open>Statistical anomalies\<close>

lemma z_anomalies_zflag:
  "z_anomalies sub = map (\<lambda>x. (idx x, zflag (List.map_filter delta sub) x)) sub"
  by (simp add: z_anomalies_def zflag_def Let_def)

lemma map_of_idx:
  "distinct (map idx xs) \<Longrightarrow> r \<in> set xs \<Longrightarrow>
   map_of (map (\<lambda>x. (idx x, F x)) xs) (idx r) = Some (F r)"
  by (induction xs) (auto simp: image_iff)

lemma set_flow_break_fields [simp]:
  "idx (set_flow_break r) = idx r" "userId (set_flow_break r) = userId r"
  "delta (set_flow_break r) = delta r"
  by (simp_all add: set_flow_break_def)

lemma shift_old_delta [simp]: "map delta (shift_old xs) = map delta xs"
  by (induction xs) auto

lemma distinct_idx_stage3: "distinct (map idx (stage3 T recs))"
proof -
  have "map idx (stage3 T recs) = map idx (shift_old (sort_values (base_rows T recs)))"
    by (simp add: stage3_def comp_def)
  then show ?thesis using distinct_idx_sorted by simp
qed

lemma pipeline_stage3:
  "pipeline T recs =
     map (\<lambda>r. r\<lparr> delta_anomaly := fillna_False (anomaly_cell (stage3 T recs) r) \<rparr>) (stage3 T recs)"
  by (simp add: pipeline_def stage3_def Let_def)

lemma user_deltas_upd:
  "List.map_filter delta (filter (\<lambda>x. userId x = k) (map (\<lambda>r. r\<lparr> delta_anomaly := f r \<rparr>) xs))
     = List.map_filter delta (filter (\<lambda>x. userId x = k) xs)"
  by (induction xs) (auto simp: List.map_filter_simps split: option.splits)

lemma anomaly_cell_value:
  assumes "distinct (map idx rows)" and "r \<in> set rows"
  shows "fillna_False (anomaly_cell rows r) =
           (case userId r of
              None \<Rightarrow> False
            | Some u \<Rightarrow>
                zflag (List.map_filter delta (filter (\<lambda>x. userId x = Some u) rows)) r)"
proof (cases "userId r")
  case None
  then show ?thesis by (simp add: anomaly_cell_def fillna_False_def)
next
  case (Some u)
  let ?sub = "filter (\<lambda>x. userId x = Some u) rows"
  have d: "distinct (map idx ?sub)" using assms(1) by (simp add: distinct_map_filter)
  have m: "r \<in> set ?sub" using assms(2) Some by simp
  have "map_of (z_anomalies ?sub) (idx r) = Some (zflag (List.map_filter delta ?sub) r)"
    unfolding z_anomalies_zflag by (rule map_of_idx[OF d m])
  then show ?thesis
    using Some by (simp add: anomaly_cell_def fillna_False_def)
qed

lemma pipeline_cols:
  "map userId (pipeline T recs) = map userId (sort_values (base_rows T recs))"
  "map delta (pipeline T recs) = map delta (sort_values (base_rows T recs))"
proof -
  have "map userId (map core (pipeline T recs)) = map userId (pipeline T recs)"
    by (simp add: comp_def)
  then show "map userId (pipeline T recs) = map userId (sort_values (base_rows T recs))"
    by (simp only: map_core_pipeline)
  have "map delta (map core (pipeline T recs)) = map delta (pipeline T recs)"
    by (simp add: comp_def)
  then show "map delta (pipeline T recs) = map delta (sort_values (base_rows T recs))"
    by (simp only: map_core_pipeline)
qed

lemma user_deltas_cols:
  "List.map_filter delta (filter (\<lambda>x. userId x = k) xs)
     = List.map_filter id (map snd (filter (\<lambda>p. fst p = k) (zip (map userId xs) (map delta xs))))"
  by (induction xs) (auto simp: List.map_filter_simps split: option.splits)

lemma user_deltas_pipeline:
  "List.map_filter delta (filter (\<lambda>x. userId x = k) (pipeline T recs))
     = List.map_filter delta (filter (\<lambda>x. userId x = k) (sort_values (base_rows T recs)))"
  by (simp only: user_deltas_cols pipeline_cols)

lemma outlier_cols:
  "has_col newBalance outlier_records" "has_col oldBalance outlier_records"
  "has_col amount outlier_records" "has_col userId outlier_records"
  "has_col walletId outlier_records"
  by code_simp+

lemma outlier_ok: "analyze example_to_datetime outlier_records = Inr outlier_analysis"
  unfolding outlier_analysis_def by (rule analyze_ok[OF outlier_cols])

lemma outlier_sorted:
  "map userId (sort_values (base_rows example_to_datetime outlier_records))
     = replicate 11 (Some ''U'') @ [Some ''V'']"
  "map delta (sort_values (base_rows example_to_datetime outlier_records))
     = replicate 10 (Some 0) @ [Some 11, Some 1]"
  "List.map_filter delta (filter (\<lambda>x. userId x = Some ''U'')
      (sort_values (base_rows example_to_datetime outlier_records)))
     = replicate 10 0 @ [11]"
  by code_simp+

lemma outlier_stats:
  "mean (replicate 10 0 @ [11]) = 1"
  "std_ddof1 (replicate 10 0 @ [11]) = sqrt 11"
  by (simp_all add: mean_def std_ddof1_def numeral_eq_Suc)

lemma sqrt_11_bounds: "3 * sqrt 11 < 10" "sqrt 11 \<noteq> 0" "1 \<le> 3 * sqrt 11"
proof -
  have "sqrt 11 < 10 / 3" by (rule real_less_lsqrt) (simp_all add: power2_eq_square)
  then show "3 * sqrt 11 < 10" by simp
  show "sqrt 11 \<noteq> 0" by simp
  have "1 \<le> sqrt 11" by (rule real_le_rsqrt) simp
  then show "1 \<le> 3 * sqrt 11" by linarith
qed



section \<open>Where the code leaves the specification\<close>

text \<open>
  C2: a table in which no Record has \<open>oldBalance\<close>. The loop of line 103 skips the
  missing column (\<open>if col in df.columns\<close>), but line 107 reads \<open>df['oldBalance']\<close>
  without a test: \<open>analyze\<close> raises \<open>KeyError\<close> instead of completing with unknown
  values. This holds whatever \<open>pd.to_datetime\<close> returns.
\<close>

theorem missing_column_raises:
  "analyze T no_old_records = Inl (KeyError ''oldBalance'')"
  by (simp add: analyze_def has_col_def no_old_records_def example_record_def)

text \<open>
  C10: a table in which no Record has \<open>userId\<close>. The sort of line 122 reads the
  column before the tests \<open>'userId' in df.columns\<close> of lines 123, 136 and 144 are
  reached: \<open>analyze\<close> raises \<open>KeyError\<close>, and neither the all-false anomaly column nor
  the empty summary of the \<open>else\<close> branches is ever produced.
\<close>

theorem missing_userId_raises:
  "analyze T no_user_records = Inl (KeyError ''userId'')"
  by (simp add: analyze_def has_col_def no_user_records_def example_record_def)

lemma two_wallet_cols:
  "has_col newBalance two_wallet_records" "has_col oldBalance two_wallet_records"
  "has_col amount two_wallet_records" "has_col userId two_wallet_records"
  "has_col walletId two_wallet_records"
  by code_simp+

text \<open>
  C7: a user \<open>U\<close> with two wallets. The summary takes the last known \<open>newBalance\<close> in the
  order of the table, which is sorted by \<open>walletId\<close> before \<open>ts\<close>: \<open>last_balance\<close> of
  \<open>U\<close> is 10, the balance of the earlier event (10:00:05, wallet \<open>B\<close>), and \<open>final_overdraft\<close>
  is false, while the chronologically last known balance is -5 (10:00:10, wallet \<open>A\<close>).
\<close>

theorem last_balance_two_wallets:
  "analyze example_to_datetime two_wallet_records = Inr two_wallet_analysis \<and>
   map user_key (per_user two_wallet_analysis) = [''U'', ''V''] \<and>
   map last_balance (per_user two_wallet_analysis) = [Some 10, Some 2] \<and>
   map final_overdraft (per_user two_wallet_analysis) = [False, False] \<and>
   map ts (df two_wallet_analysis) = [Some 36010, Some 36005, Some 36007] \<and>
   map newBalance_f (df two_wallet_analysis) = [Some (- 5), Some 10, Some 2] \<and>
   spec_last_balance (df two_wallet_analysis) ''U'' = Some (- 5)"
proof -
  have ok: "analyze example_to_datetime two_wallet_records = Inr two_wallet_analysis"
    unfolding two_wallet_analysis_def by (rule analyze_ok[OF two_wallet_cols])
  have a: "map user_key (per_user two_wallet_analysis) = [''U'', ''V'']"
    "map last_balance (per_user two_wallet_analysis) = [Some 10, Some 2]"
    "map final_overdraft (per_user two_wallet_analysis) = [False, False]"
    "map ts (df two_wallet_analysis) = [Some 36010, Some 36005, Some 36007]"
    "map newBalance_f (df two_wallet_analysis) = [Some (- 5), Some 10, Some 2]"
    "spec_last_balance (df two_wallet_analysis) ''U'' = Some (- 5)"
    by code_simp+
  show ?thesis using ok a by simp
qed

end
